theory Spec2Isabelle
  imports Main
begin

section \<open>JavaScript values\<close>

text \<open>
  The fragment of JavaScript values that \<^verbatim>\<open>src/connection.js\<close> touches: the values
  of option fields, the error slot of the driver's error-first callbacks, database names
  and the arguments handed to the completion callback. Numbers are the integers and NaN;
  \<open>JObj r\<close> is a reference to an object (an \<^verbatim>\<open>Error\<close> instance, a connection).
\<close>

datatype jsval =
    JUndefined
  | JNull
  | JBool bool
  | JNum int
  | JNaN
  | JStr string
  | JObj nat

text \<open>ToBoolean, as used by \<^verbatim>\<open>if( error )\<close> and by \<^verbatim>\<open>||\<close>.\<close>

fun truthy :: "jsval \<Rightarrow> bool" where
  "truthy JUndefined = False"
| "truthy JNull = False"
| "truthy (JBool b) = b"
| "truthy (JNum n) = (n \<noteq> 0)"
| "truthy JNaN = False"
| "truthy (JStr s) = (s \<noteq> [])"
| "truthy (JObj r) = True"

text \<open>The operator \<^verbatim>\<open>a || b\<close>.\<close>

definition js_or :: "jsval \<Rightarrow> jsval \<Rightarrow> jsval" where
  "js_or a b = (if truthy a then a else b)"

text \<open>The operator \<^verbatim>\<open>===\<close>: NaN equals nothing, objects are compared by reference.\<close>

fun strict_eq :: "jsval \<Rightarrow> jsval \<Rightarrow> bool" where
  "strict_eq JNaN b = False"
| "strict_eq a JNaN = False"
| "strict_eq a b = (a = b)"

text \<open>
  \<^verbatim>\<open>Array.prototype.indexOf\<close>: the index of the first element strictly equal to the
  value, \<open>-1\<close> when there is none.
\<close>

fun indexOf_from :: "int \<Rightarrow> jsval list \<Rightarrow> jsval \<Rightarrow> int" where
  "indexOf_from i [] v = -1"
| "indexOf_from i (x # xs) v = (if strict_eq x v then i else indexOf_from (i + 1) xs v)"

definition indexOf :: "jsval list \<Rightarrow> jsval \<Rightarrow> int" where
  "indexOf xs v = indexOf_from 0 xs v"

text \<open>
  A plain object is the list of its own properties in insertion order. Reading a missing
  property gives \<^verbatim>\<open>undefined\<close>; an assignment overwrites the property in place or
  appends it.
\<close>

type_synonym obj = "(string \<times> jsval) list"

definition get_prop :: "obj \<Rightarrow> string \<Rightarrow> jsval" where
  "get_prop ob k = (case map_of ob k of None \<Rightarrow> JUndefined | Some v \<Rightarrow> v)"

fun set_prop :: "string \<Rightarrow> jsval \<Rightarrow> obj \<Rightarrow> obj" where
  "set_prop k v [] = [(k, v)]"
| "set_prop k v ((k', v') # ps) =
     (if k' = k then (k, v) # ps else (k', v') # set_prop k v ps)"

section \<open>The Connection class and its surroundings\<close>

text \<open>
  A connection handed out by the driver is an object of the driver, named by its
  reference. The three asynchronous driver calls of the handshake are the steps.
\<close>

type_synonym handle = nat

datatype step = ConnectStep | ListStep | CreateStep

text \<open>
  Everything the instance does to the outside, and every callback the driver invokes on
  it, in the order it happens:
  \<^item> \<open>Connect ob\<close>: \<^verbatim>\<open>rethinkdb.connect( options, ... )\<close>, with the properties the options
    object has at that moment;
  \<^item> \<open>DbListRun c\<close>: \<^verbatim>\<open>rethinkdb.dbList().run( connection, ... )\<close>;
  \<^item> \<open>DbCreateRun n c\<close>: \<^verbatim>\<open>rethinkdb.dbCreate( n ).run( this._connection, ... )\<close>;
  \<^item> \<open>Use c n\<close>: \<^verbatim>\<open>connection.use( n )\<close>;
  \<^item> \<open>Callback args\<close>: \<^verbatim>\<open>this._callback( args )\<close>;
  \<^item> \<open>Invoked s\<close>: the driver invokes the callback it was given for step \<open>s\<close>;
  \<^item> \<open>TypeError\<close>: a method call on \<^verbatim>\<open>null\<close> throws.
\<close>

datatype event =
    Connect obj
  | DbListRun handle
  | DbCreateRun jsval "handle option"
  | Use handle jsval
  | Callback "jsval list"
  | Invoked step
  | TypeError

text \<open>
  The instance fields, the caller's options object (which \<^verbatim>\<open>this._options\<close> refers to:
  there is one object, so it is held once), the events so far, and the step whose wrapped
  callback the driver currently holds.
\<close>

record world =
  options :: obj
  connection :: "handle option"
  database :: jsval
  trace :: "event list"
  pending :: "step option"

definition emit :: "event \<Rightarrow> world \<Rightarrow> world" where
  "emit ev w = w\<lparr>trace := trace w @ [ev]\<rparr>"

text \<open>\<^verbatim>\<open>this._callback( ... )\<close>: the caller's continuation, outside the class.\<close>

definition callback :: "jsval list \<Rightarrow> world \<Rightarrow> world" where
  "callback args w = emit (Callback args) w"

text \<open>\<^verbatim>\<open>constructor( options, callback )\<close>, lines 15-22.\<close>

definition constructor :: "obj \<Rightarrow> world" where
  "constructor opts =
     (let db = js_or (get_prop opts ''database'') (JStr ''deepstream'');
          opts' = set_prop ''db'' db opts
      in \<lparr>options = opts', connection = None, database = db,
          trace = [Connect opts'], pending = Some ConnectStep\<rparr>)"

text \<open>\<^verbatim>\<open>get()\<close>, lines 30-32.\<close>

definition get :: "world \<Rightarrow> handle option" where
  "get w = connection w"

text \<open>\<^verbatim>\<open>_onConnection( connection )\<close>, lines 43-46.\<close>

definition onConnection :: "handle \<Rightarrow> world \<Rightarrow> world" where
  "onConnection c w =
     (emit (DbListRun c) (w\<lparr>connection := Some c\<rparr>))\<lparr>pending := Some ListStep\<rparr>"

text \<open>\<^verbatim>\<open>_onDb()\<close>, lines 74-77.\<close>

definition onDb :: "world \<Rightarrow> world" where
  "onDb w =
     (case connection w of
        None \<Rightarrow> emit TypeError w
      | Some c \<Rightarrow> callback [JNull] (emit (Use c (database w)) w))"

text \<open>\<^verbatim>\<open>_onDbList( dbList )\<close>, lines 57-63.\<close>

definition onDbList :: "jsval list \<Rightarrow> world \<Rightarrow> world" where
  "onDbList dbList w =
     (if indexOf dbList (database w) = -1
      then (emit (DbCreateRun (database w) (connection w)) w)\<lparr>pending := Some CreateStep\<rparr>
      else onDb w)"

text \<open>
  \<^verbatim>\<open>_fn( fn )\<close>, lines 89-97: the function it returns, applied to the driver's
  \<^verbatim>\<open>( error, result )\<close>.
\<close>

definition fn :: "('r \<Rightarrow> world \<Rightarrow> world) \<Rightarrow> jsval \<Rightarrow> 'r \<Rightarrow> world \<Rightarrow> world" where
  "fn f error result w = (if truthy error then callback [error] w else f result w)"

section \<open>The driver\<close>

text \<open>
  The driver is outside the class. It answers a call by invoking the callback it was given
  for it, once, with an error slot and a result: a connection for connect, an array of
  names for the listing, and a result that \<^verbatim>\<open>_onDb\<close> ignores for the creation.
  The driver's callbacks are error-first: the error slot holds \<^verbatim>\<open>null\<close> when the call
  succeeded and an \<^verbatim>\<open>Error\<close> object, named by its reference, when it failed.
\<close>

type_synonym err = nat

datatype response =
    Connected "err option" handle
  | Listed "err option" "jsval list"
  | Created "err option" jsval

fun step_of :: "response \<Rightarrow> step" where
  "step_of (Connected e c) = ConnectStep"
| "step_of (Listed e l) = ListStep"
| "step_of (Created e r) = CreateStep"

text \<open>The value in the error slot.\<close>

fun slot :: "err option \<Rightarrow> jsval" where
  "slot None = JNull"
| "slot (Some r) = JObj r"

fun error_of :: "response \<Rightarrow> jsval" where
  "error_of (Connected e c) = slot e"
| "error_of (Listed e l) = slot e"
| "error_of (Created e r) = slot e"

text \<open>The wrapped callback of each call, as the source passes it to the driver.\<close>

fun invoke :: "response \<Rightarrow> world \<Rightarrow> world" where
  "invoke (Connected e c) w = fn onConnection (slot e) c w"
| "invoke (Listed e l) w = fn onDbList (slot e) l w"
| "invoke (Created e r) w = fn (\<lambda>_. onDb) (slot e) r w"

text \<open>
  The driver answers a call: the invocation is recorded, the call is no longer outstanding,
  and the wrapped callback runs.
\<close>

definition answered :: "response \<Rightarrow> world \<Rightarrow> world" where
  "answered r w = invoke r (emit (Invoked (step_of r)) (w\<lparr>pending := None\<rparr>))"

text \<open>
  Only the outstanding call can be answered; an answer to a call that is not outstanding
  is not a move of the driver (\<open>None\<close>).
\<close>

definition deliver :: "response \<Rightarrow> world \<Rightarrow> world option" where
  "deliver r w = (if pending w = Some (step_of r) then Some (answered r w) else None)"

fun run_from :: "world \<Rightarrow> response list \<Rightarrow> world option" where
  "run_from w [] = Some w"
| "run_from w (r # rs) =
     (case deliver r w of None \<Rightarrow> None | Some w' \<Rightarrow> run_from w' rs)"

text \<open>A bootstrap: construction, then the driver's answers in order.\<close>

definition run :: "obj \<Rightarrow> response list \<Rightarrow> world option" where
  "run opts rs = run_from (constructor opts) rs"

text \<open>The argument lists of the completion callback's invocations, in order.\<close>

fun callbacks :: "event list \<Rightarrow> jsval list list" where
  "callbacks [] = []"
| "callbacks (Callback args # evs) = args # callbacks evs"
| "callbacks (ev # evs) = callbacks evs"

text \<open>The driver call that starts a step, and the events that end a bootstrap.\<close>

fun is_call :: "step \<Rightarrow> event \<Rightarrow> bool" where
  "is_call ConnectStep (Connect ob) = True"
| "is_call ListStep (DbListRun c) = True"
| "is_call CreateStep (DbCreateRun n c) = True"
| "is_call s ev = False"

fun is_finish :: "event \<Rightarrow> bool" where
  "is_finish (Use c n) = True"
| "is_finish (Callback args) = True"
| "is_finish ev = False"

text \<open>\<open>never_before P Q evs\<close>: no \<open>Q\<close> event occurs before the first \<open>P\<close> event.\<close>

fun never_before :: "(event \<Rightarrow> bool) \<Rightarrow> (event \<Rightarrow> bool) \<Rightarrow> event list \<Rightarrow> bool" where
  "never_before P Q [] = True"
| "never_before P Q (ev # evs) = (if P ev then True else \<not> Q ev \<and> never_before P Q evs)"

section \<open>Values, arrays and objects\<close>

lemma truthy_strict_eq: "truthy v \<Longrightarrow> strict_eq x v = (x = v)"
  by (cases x; cases v; simp)

lemma indexOf_from_absent:
  "0 \<le> i \<Longrightarrow> (indexOf_from i xs v = -1) = (\<forall>x\<in>set xs. \<not> strict_eq x v)"
  by (induction xs arbitrary: i) auto

lemma indexOf_absent: "truthy v \<Longrightarrow> (indexOf xs v = -1) = (v \<notin> set xs)"
  by (auto simp: indexOf_def indexOf_from_absent truthy_strict_eq)

lemma map_of_set_prop: "map_of (set_prop k v ps) = (map_of ps)(k \<mapsto> v)"
  by (induction ps) auto

lemma get_prop_set_prop:
  "get_prop (set_prop k v ps) k' = (if k' = k then v else get_prop ps k')"
  by (simp add: get_prop_def map_of_set_prop)

section \<open>The shape of every bootstrap\<close>

lemma database_truthy: "truthy (database (constructor opts))"
  by (simp add: constructor_def js_or_def Let_def)

lemma pending_constructor: "pending (constructor opts) = Some ConnectStep"
  by (simp add: constructor_def Let_def)

lemma step_of_iff:
  "(ConnectStep = step_of r) = (\<exists>e c. r = Connected e c)"
  "(ListStep = step_of r) = (\<exists>e l. r = Listed e l)"
  "(CreateStep = step_of r) = (\<exists>e x. r = Created e x)"
  by (cases r; simp)+

text \<open>
  The wrapper forwards whatever \<^verbatim>\<open>if( error )\<close> accepts, and calls the wrapped
  function otherwise. Of the values the driver puts in the error slot, it accepts the
  \<^verbatim>\<open>Error\<close> objects.
\<close>

lemma fn_error: "truthy e \<Longrightarrow> fn f e x w = callback [e] w"
  by (simp add: fn_def)

lemma fn_success: "\<not> truthy e \<Longrightarrow> fn f e x w = f x w"
  by (simp add: fn_def)

lemma truthy_slot: "truthy (slot e) = (e \<noteq> None)"
  by (cases e) simp_all

lemma slot_eq_JNull: "(slot e = JNull) = (e = None)"
  by (cases e) simp_all

lemma pending_answered:
  "pending (answered r w) =
     (case r of
        Connected e c \<Rightarrow> if e \<noteq> None then None else Some ListStep
      | Listed e l \<Rightarrow>
          if e \<noteq> None \<or> indexOf l (database w) \<noteq> -1 then None else Some CreateStep
      | Created e x \<Rightarrow> None)"
  by (cases r) (simp_all add: truthy_slot answered_def fn_def onConnection_def onDbList_def
      onDb_def callback_def emit_def split: option.split)

lemma database_answered: "database (answered r w) = database w"
  by (cases r) (simp_all add: answered_def fn_def onConnection_def onDbList_def onDb_def
      callback_def emit_def split: option.split)

lemma run_from_Cons:
  "(run_from w (r # rs) = Some w') =
     (pending w = Some (step_of r) \<and> run_from (answered r w) rs = Some w')"
  by (simp add: deliver_def)

text \<open>
  A bootstrap takes at most three answers: connect; then the listing, when connect
  succeeded; then the creation, when the listing succeeded and lacks the name.
\<close>

lemma run_cases:
  assumes "run opts rs = Some w"
  obtains (start) "rs = []"
  | (connect) e c where "rs = [Connected e c]"
  | (list) c e' l where "rs = [Connected None c, Listed e' l]"
  | (create) c l e'' x where "rs = [Connected None c, Listed None l, Created e'' x]"
      "database (constructor opts) \<notin> set l"
proof (cases rs)
  case Nil
  then show ?thesis by (rule start)
next
  case (Cons r1 rs1)
  with assms obtain e c where r1: "r1 = Connected e c"
    and run1: "run_from (answered r1 (constructor opts)) rs1 = Some w"
    by (auto simp: run_def run_from_Cons pending_constructor step_of_iff
        simp del: run_from.simps(2))
  show ?thesis
  proof (cases rs1)
    case Nil
    with Cons r1 show ?thesis by (auto intro: connect)
  next
    case Cons2: (Cons r2 rs2)
    with run1 r1 obtain e' l where r2: "r2 = Listed e' l" and e: "e = None"
      and run2: "run_from (answered r2 (answered r1 (constructor opts))) rs2 = Some w"
      by (auto simp: run_from_Cons pending_answered step_of_iff
          simp del: run_from.simps(2) split: if_splits)
    show ?thesis
    proof (cases rs2)
      case Nil
      with Cons Cons2 r1 r2 e show ?thesis by (auto intro: list)
    next
      case Cons3: (Cons r3 rs3)
      with run2 r2 obtain e'' x where r3: "r3 = Created e'' x" and e': "e' = None"
        and absent: "indexOf l (database (constructor opts)) = -1"
        and run3: "run_from (answered r3 (answered r2 (answered r1 (constructor opts)))) rs3
                   = Some w"
        by (auto simp: run_from_Cons pending_answered database_answered step_of_iff
            simp del: run_from.simps(2) split: if_splits)
      have "rs3 = []"
        using run3 r3
        by (cases rs3) (auto simp: run_from_Cons pending_answered simp del: run_from.simps(2))
      with Cons Cons2 Cons3 r1 r2 r3 e e' absent show ?thesis
        by (auto intro: create simp: indexOf_absent [OF database_truthy])
    qed
  qed
qed

lemmas step_defs = answered_def fn_def onConnection_def onDbList_def onDb_def
  callback_def emit_def

lemma callbacks_append: "callbacks (xs @ ys) = callbacks xs @ callbacks ys"
  by (induction xs rule: callbacks.induct) simp_all

lemma constructor_fields:
  "database (constructor opts) = js_or (get_prop opts ''database'') (JStr ''deepstream'')"
  "options (constructor opts) = set_prop ''db'' (database (constructor opts)) opts"
  by (simp_all add: constructor_def Let_def)

lemma world_constructor:
  "connection (constructor opts) = None"
  "trace (constructor opts) = [Connect (options (constructor opts))]"
  by (simp_all add: constructor_def Let_def)

text \<open>The world after each of the four kinds of run, in closed form.\<close>

lemma run_Nil: "run opts [] = Some (constructor opts)"
  by (simp add: run_def)

lemma run_connect:
  "run opts [Connected e c] =
     Some (case e of
             Some r \<Rightarrow> (constructor opts)\<lparr>trace := trace (constructor opts) @
                  [Invoked ConnectStep, Callback [JObj r]], pending := None\<rparr>
           | None \<Rightarrow> (constructor opts)\<lparr>connection := Some c,
                  trace := trace (constructor opts) @ [Invoked ConnectStep, DbListRun c],
                  pending := Some ListStep\<rparr>)"
  by (cases e) (simp_all add: run_def deliver_def pending_constructor step_defs)

lemma run_list:
  "run opts [Connected None c, Listed e' l] =
     Some ((constructor opts)\<lparr>connection := Some c,
        trace := trace (constructor opts) @
          [Invoked ConnectStep, DbListRun c, Invoked ListStep] @
          (case e' of
             Some r \<Rightarrow> [Callback [JObj r]]
           | None \<Rightarrow>
               if database (constructor opts) \<in> set l
               then [Use c (database (constructor opts)), Callback [JNull]]
               else [DbCreateRun (database (constructor opts)) (Some c)]),
        pending := (if e' = None \<and> database (constructor opts) \<notin> set l
                    then Some CreateStep else None)\<rparr>)"
  by (cases e') (simp_all add: run_def deliver_def pending_constructor step_defs
      indexOf_absent [OF database_truthy])

lemma run_create:
  "database (constructor opts) \<notin> set l \<Longrightarrow>
   run opts [Connected None c, Listed None l, Created e'' x] =
     Some ((constructor opts)\<lparr>connection := Some c,
        trace := trace (constructor opts) @
          [Invoked ConnectStep, DbListRun c, Invoked ListStep,
           DbCreateRun (database (constructor opts)) (Some c), Invoked CreateStep] @
          (case e'' of
             Some r \<Rightarrow> [Callback [JObj r]]
           | None \<Rightarrow> [Use c (database (constructor opts)), Callback [JNull]]),
        pending := None\<rparr>)"
  by (cases e'') (simp_all add: run_def deliver_def pending_constructor step_defs
      indexOf_absent [OF database_truthy])

text \<open>After the last event of a bootstrap the driver has nothing left to answer.\<close>

lemma run_over:
  "run opts rs = Some w \<Longrightarrow> pending w = None \<Longrightarrow> run opts (rs @ [r]) = None"
proof -
  have "run_from w0 rs = Some w \<Longrightarrow> pending w = None \<Longrightarrow> run_from w0 (rs @ [r]) = None"
    for w0
    by (induction rs arbitrary: w0) (auto simp: deliver_def split: option.splits)
  then show "run opts rs = Some w \<Longrightarrow> pending w = None \<Longrightarrow> run opts (rs @ [r]) = None"
    by (simp add: run_def)
qed

text \<open>
  \<^verbatim>\<open>_onDb\<close> is only reached after \<^verbatim>\<open>_onConnection\<close> has stored the connection, so
  \<^verbatim>\<open>this._connection.use\<close> never throws in a bootstrap.
\<close>

lemma no_TypeError:
  assumes "run opts rs = Some w"
  shows "TypeError \<notin> set (trace w)"
  using assms
proof (cases rule: run_cases)
  case start
  with assms show ?thesis by (auto simp: run_Nil world_constructor)
next
  case (connect e c)
  with assms show ?thesis
    by (auto simp: run_connect world_constructor split: option.splits)
next
  case (list c e' l)
  with assms show ?thesis
    by (auto simp: run_list world_constructor split: if_splits option.splits)
next
  case (create c l e'' x)
  with assms show ?thesis
    by (auto simp: run_create world_constructor indexOf_absent [OF database_truthy]
        split: if_splits option.splits)
qed

section \<open>The completion callback\<close>

text \<open>
  Claim C1. In a bootstrap the completion callback is invoked exactly once, whatever the
  outcomes of connect, listing and creation. First half: for every combination of
  outcomes \<open>(e1, c)\<close>, \<open>(e2, l)\<close>, \<open>(e3, x)\<close> of the three steps, the bootstrap is over
  after at most three answers of the driver, and the callback has then been invoked once,
  with one argument, which is null or an error. Second half: at every point of every
  bootstrap the callback has been invoked once if no driver call is outstanding, and not
  at all while one is; so never twice.
\<close>

theorem completion_callback_exactly_once:
  "(\<exists>n\<le>3. \<exists>w. run opts (take n [Connected e1 c, Listed e2 l, Created e3 x]) = Some w \<and>
       pending w = None \<and>
       (\<exists>e. callbacks (trace w) = [[e]] \<and> (e = JNull \<or> (\<exists>r. e = JObj r)))) \<and>
   (\<forall>rs w. run opts rs = Some w \<longrightarrow>
       length (callbacks (trace w)) = (if pending w = None then 1 else 0))"
proof (rule conjI)
  let ?rs = "[Connected e1 c, Listed e2 l, Created e3 x]"
  let ?done = "\<lambda>n. \<exists>w. run opts (take n ?rs) = Some w \<and> pending w = None \<and>
      (\<exists>e. callbacks (trace w) = [[e]] \<and> (e = JNull \<or> (\<exists>r. e = JObj r)))"
  consider (a) "e1 \<noteq> None"
    | (b) "e1 = None" "e2 \<noteq> None \<or> database (constructor opts) \<in> set l"
    | (c) "e1 = None" "e2 = None" "database (constructor opts) \<notin> set l"
    by blast
  then show "\<exists>n\<le>3. ?done n"
  proof cases
    case a
    then have "?done 1"
      by (auto simp: run_connect world_constructor)
    then show ?thesis by (intro exI [of _ 1]) simp
  next
    case b
    then have "?done 2"
      by (cases e2) (auto simp: numeral_2_eq_2 run_list world_constructor)
    then show ?thesis by (intro exI [of _ 2]) simp
  next
    case c
    then have "?done 3"
      by (cases e3) (simp_all add: run_create world_constructor)
    then show ?thesis by (intro exI [of _ 3]) simp
  qed
next
  show "\<forall>rs w. run opts rs = Some w \<longrightarrow>
       length (callbacks (trace w)) = (if pending w = None then 1 else 0)"
  proof (intro allI impI)
    fix rs w
    assume r: "run opts rs = Some w"
    then show "length (callbacks (trace w)) = (if pending w = None then 1 else 0)"
    proof (cases rule: run_cases)
      case start
      with r show ?thesis by (auto simp: run_Nil world_constructor pending_constructor)
    next
      case (connect e c)
      with r show ?thesis by (cases e) (auto simp: run_connect world_constructor)
    next
      case (list c e' l)
      with r show ?thesis
        by (cases e') (auto simp: run_list world_constructor split: if_splits)
    next
      case (create c l e'' x)
      with r show ?thesis by (cases e'') (auto simp: run_create world_constructor)
    qed
  qed
qed

theorem completion_callback_exactly_once_witness:
  "map_option (length \<circ> callbacks \<circ> trace)
     (run [(''database'', JStr ''testdb'')]
        [Connected None 7, Listed None [JStr ''other''], Created (Some 1) JUndefined])
     = Some 1"
proof -
  let ?opts = "[(''database'', JStr ''testdb'')]"
  let ?rs = "[Connected None 7, Listed None [JStr ''other''], Created (Some 1) JUndefined]"
  obtain w where r: "run ?opts ?rs = Some w" and p: "pending w = None"
    by (simp add: run_create constructor_fields js_or_def get_prop_def)
  from completion_callback_exactly_once [of ?opts]
  have "run ?opts ?rs = Some w \<longrightarrow>
      length (callbacks (trace w)) = (if pending w = None then 1 else 0)"
    by blast
  with r p show ?thesis by simp
qed

text \<open>
  Claim C8. When the driver answers any of the three calls with a non-null error, the
  completion callback receives that very value as its only argument, and nothing else
  happens: no field changes, no driver call is issued again or anew, and no call is
  outstanding afterwards.
\<close>

theorem error_forwarded_unchanged:
  assumes "deliver a w = Some w'" and "error_of a \<noteq> JNull"
  shows "w' = w\<lparr>trace := trace w @ [Invoked (step_of a), Callback [error_of a]],
                pending := None\<rparr>"
proof -
  from assms(2) have "truthy (error_of a)"
    by (cases a) (simp_all add: truthy_slot slot_eq_JNull)
  with assms(1) show ?thesis
    by (cases a) (auto simp: deliver_def step_defs split: if_splits)
qed

theorem error_forwarded_unchanged_witness:
  "error_of (Listed (Some 1) []) \<noteq> JNull \<and>
   map_option trace (deliver (Listed (Some 1) [])
     \<lparr>options = [], connection = Some 7, database = JStr ''deepstream'',
      trace = [DbListRun 7], pending = Some ListStep\<rparr>)
   = Some [DbListRun 7, Invoked ListStep, Callback [JObj 1]]"
proof -
  let ?w = "\<lparr>options = [], connection = Some 7, database = JStr ''deepstream'',
      trace = [DbListRun 7], pending = Some ListStep\<rparr>"
  have d: "deliver (Listed (Some 1) []) ?w = Some (answered (Listed (Some 1) []) ?w)"
    by (simp add: deliver_def)
  have t: "error_of (Listed (Some 1) []) \<noteq> JNull"
    by simp
  from error_forwarded_unchanged [OF d t] d t show ?thesis
    by simp
qed

section \<open>Failure of a step\<close>

text \<open>
  Claim C6. When the driver answers connect with a non-null error, the bootstrap consists
  of the connect request, the invocation of its callback and one invocation of the
  completion callback with that error. The stored handle is still null, no listing or
  creation has been issued, and the driver holds no callback it could still invoke.
\<close>

theorem connect_failure:
  "\<exists>w. run opts [Connected (Some er) c] = Some w \<and>
      trace w = [Connect (options w), Invoked ConnectStep, Callback [JObj er]] \<and>
      get w = None \<and> pending w = None \<and>
      (\<forall>a. run opts [Connected (Some er) c, a] = None)"
proof -
  obtain w where r: "run opts [Connected (Some er) c] = Some w"
    and w: "trace w = [Connect (options w), Invoked ConnectStep, Callback [JObj er]]"
      "get w = None" "pending w = None"
    by (simp add: run_connect world_constructor get_def)
  from run_over [OF r w(3)] have "\<forall>a. run opts [Connected (Some er) c, a] = None"
    by simp
  with r w show ?thesis by blast
qed

theorem connect_failure_witness:
  "map_option get (run [] [Connected (Some 1) 0]) = Some None \<and>
   map_option (tl \<circ> trace) (run [] [Connected (Some 1) 0])
     = Some [Invoked ConnectStep, Callback [JObj 1]] \<and>
   run [] [Connected (Some 1) 0, Listed None []] = None"
  using connect_failure [of "[]" 1 0] by auto

text \<open>
  Claim C7. When connect succeeds and the driver answers the listing with a non-null
  error, the completion callback is invoked once, with that error; the trace holds no
  creation request, and the driver holds no callback it could still invoke.
\<close>

theorem listing_failure:
  "\<exists>w. run opts [Connected None c, Listed (Some er) l] = Some w \<and>
      trace w = [Connect (options w), Invoked ConnectStep, DbListRun c, Invoked ListStep,
                 Callback [JObj er]] \<and>
      pending w = None \<and>
      (\<forall>a. run opts [Connected None c, Listed (Some er) l, a] = None)"
proof -
  obtain w where r: "run opts [Connected None c, Listed (Some er) l] = Some w"
    and w: "trace w = [Connect (options w), Invoked ConnectStep, DbListRun c,
        Invoked ListStep, Callback [JObj er]]" "pending w = None"
    by (simp add: run_list world_constructor)
  from run_over [OF r w(2)]
  have "\<forall>a. run opts [Connected None c, Listed (Some er) l, a] = None"
    by simp
  with r w show ?thesis by blast
qed

theorem listing_failure_witness:
  "map_option (tl \<circ> trace) (run [] [Connected None 7, Listed (Some 2) []])
     = Some [Invoked ConnectStep, DbListRun 7, Invoked ListStep, Callback [JObj 2]] \<and>
   run [] [Connected None 7, Listed (Some 2) [], Created None JUndefined] = None"
  using listing_failure [of "[]" 7 2 "[]"] by auto

section \<open>The database exists or is created\<close>

text \<open>
  Claim C3, amended. When connect and listing succeed and the listing holds the
  configured name, no creation is issued: the instance selects the database on the handle
  and then invokes the completion callback with null as its only argument. The handle is
  not passed to the callback; it is what \<^verbatim>\<open>get()\<close> returns at that point.
\<close>

theorem database_present:
  assumes "database (constructor opts) \<in> set l"
  shows "\<exists>w. run opts [Connected None c, Listed None l] = Some w \<and>
           trace w = [Connect (options w), Invoked ConnectStep, DbListRun c, Invoked ListStep,
                      Use c (database (constructor opts)), Callback [JNull]] \<and>
           get w = Some c \<and> pending w = None"
  using assms by (simp add: run_list world_constructor get_def)

theorem database_present_witness:
  "database (constructor [(''database'', JStr ''testdb'')]) \<in> set [JStr ''testdb''] \<and>
   map_option (tl \<circ> trace)
     (run [(''database'', JStr ''testdb'')] [Connected None 7, Listed None [JStr ''testdb'']])
     = Some [Invoked ConnectStep, DbListRun 7, Invoked ListStep, Use 7 (JStr ''testdb''),
             Callback [JNull]]"
proof -
  let ?opts = "[(''database'', JStr ''testdb'')]"
  have d: "database (constructor ?opts) = JStr ''testdb''"
    by (simp add: constructor_fields js_or_def get_prop_def)
  have m: "database (constructor ?opts) \<in> set [JStr ''testdb'']"
    by (simp add: d)
  from database_present [OF m, of 7] d show ?thesis
    by auto
qed

text \<open>
  The claim as stated fails: with the name in the listing, the one invocation of the
  completion callback has the argument list \<open>[null]\<close>, not \<open>[null, handle]\<close>.
\<close>

theorem database_present_counterexample:
  "map_option (callbacks \<circ> trace)
     (run [(''database'', JStr ''testdb'')] [Connected None 7, Listed None [JStr ''testdb'']])
     = Some [[JNull]] \<and>
   map_option (callbacks \<circ> trace)
     (run [(''database'', JStr ''testdb'')] [Connected None 7, Listed None [JStr ''testdb'']])
     \<noteq> Some [[JNull, JObj 7]]"
  by (simp add: run_list world_constructor constructor_fields js_or_def get_prop_def)

text \<open>
  Claim C5. When connect and listing succeed and the listing lacks the configured name,
  one creation request is issued, for that name, on the stored handle. If the driver
  answers it with success, the instance selects the database and invokes the completion
  callback with null; if it answers with an error, the completion callback gets that
  error and no selection takes place.
\<close>

theorem database_absent:
  assumes "database (constructor opts) \<notin> set l"
  shows "(\<exists>w. run opts [Connected None c, Listed None l] = Some w \<and>
            trace w = [Connect (options w), Invoked ConnectStep, DbListRun c, Invoked ListStep,
                       DbCreateRun (database (constructor opts)) (Some c)] \<and>
            pending w = Some CreateStep) \<and>
         (\<exists>w. run opts [Connected None c, Listed None l, Created None x] = Some w \<and>
            trace w = [Connect (options w), Invoked ConnectStep, DbListRun c, Invoked ListStep,
                       DbCreateRun (database (constructor opts)) (Some c), Invoked CreateStep,
                       Use c (database (constructor opts)), Callback [JNull]] \<and>
            pending w = None) \<and>
         (\<exists>w. run opts [Connected None c, Listed None l, Created (Some er) x] = Some w \<and>
            trace w = [Connect (options w), Invoked ConnectStep, DbListRun c, Invoked ListStep,
                       DbCreateRun (database (constructor opts)) (Some c), Invoked CreateStep,
                       Callback [JObj er]] \<and>
            pending w = None)"
  using assms by (simp add: run_list run_create world_constructor)

theorem database_absent_witness:
  "database (constructor [(''database'', JStr ''testdb''), (''host'', JStr ''x''),
     (''port'', JNum 1)]) \<notin> set [JStr ''other''] \<and>
   map_option (tl \<circ> trace)
     (run [(''database'', JStr ''testdb''), (''host'', JStr ''x''), (''port'', JNum 1)]
        [Connected None 7, Listed None [JStr ''other''], Created None JUndefined])
     = Some [Invoked ConnectStep, DbListRun 7, Invoked ListStep,
             DbCreateRun (JStr ''testdb'') (Some 7), Invoked CreateStep,
             Use 7 (JStr ''testdb''), Callback [JNull]] \<and>
   map_option (tl \<circ> trace)
     (run [(''database'', JStr ''testdb''), (''host'', JStr ''x''), (''port'', JNum 1)]
        [Connected None 7, Listed None [JStr ''other''], Created (Some 3) JUndefined])
     = Some [Invoked ConnectStep, DbListRun 7, Invoked ListStep,
             DbCreateRun (JStr ''testdb'') (Some 7), Invoked CreateStep, Callback [JObj 3]]"
proof -
  let ?opts = "[(''database'', JStr ''testdb''), (''host'', JStr ''x''), (''port'', JNum 1)]"
  have d: "database (constructor ?opts) = JStr ''testdb''"
    by (simp add: constructor_fields js_or_def get_prop_def)
  have m: "database (constructor ?opts) \<notin> set [JStr ''other'']"
    by (simp add: d)
  from database_absent [OF m, of 7 JUndefined 3] d
  show ?thesis
    by auto
qed

section \<open>The handle accessor\<close>

text \<open>
  Claim C2, amended. \<^verbatim>\<open>get()\<close> returns null until the driver has answered connect, and
  for good when that answer is an error. From the moment the connect callback is invoked
  with success it returns the connection handle, whether the listing or the creation is
  still outstanding, has failed or has succeeded. In particular it returns the handle
  whenever the completion callback has been invoked with a null error.
\<close>

theorem handle_accessor:
  assumes "run opts rs = Some w"
  shows "get w = (case rs of
                    Connected None c # rs' \<Rightarrow> Some c
                  | _ \<Rightarrow> None) \<and>
         ([JNull] \<in> set (callbacks (trace w)) \<longrightarrow> get w \<noteq> None)"
  using assms
proof (cases rule: run_cases)
  case start
  with assms show ?thesis by (auto simp: run_Nil world_constructor get_def)
next
  case (connect e c)
  with assms show ?thesis by (cases e) (auto simp: run_connect world_constructor get_def)
next
  case (list c e' l)
  with assms show ?thesis by (cases e') (auto simp: run_list world_constructor get_def)
next
  case (create c l e'' x)
  with assms show ?thesis
    by (cases e'') (auto simp: run_create world_constructor get_def)
qed

theorem handle_accessor_witness:
  "map_option get (run [] [Connected None 7, Listed None [JStr ''deepstream'']])
     = Some (Some 7) \<and>
   map_option get (run [] []) = Some None"
proof -
  let ?rs = "[Connected None 7, Listed None [JStr ''deepstream'']]"
  obtain w where r: "run [] ?rs = Some w"
    by (simp add: run_list)
  obtain w0 where r0: "run [] [] = Some w0"
    by (simp add: run_Nil)
  from handle_accessor [OF r] handle_accessor [OF r0] r r0 show ?thesis
    by simp
qed

text \<open>
  The claim as stated fails. After a successful connect, with the listing outstanding and
  the completion callback not yet invoked, \<^verbatim>\<open>get()\<close> returns the handle; and it still
  returns it after the listing has failed and the callback has got the error.
\<close>

theorem handle_accessor_counterexample:
  "map_option get (run [] [Connected None 7]) = Some (Some 7) \<and>
   map_option pending (run [] [Connected None 7]) = Some (Some ListStep) \<and>
   map_option (callbacks \<circ> trace) (run [] [Connected None 7]) = Some [] \<and>
   map_option get (run [] [Connected None 7, Listed (Some 1) []]) = Some (Some 7) \<and>
   map_option (callbacks \<circ> trace) (run [] [Connected None 7, Listed (Some 1) []])
     = Some [[JObj 1]]"
  by (simp add: run_connect run_list world_constructor get_def)

section \<open>The constructor\<close>

text \<open>
  Claim C4, amended. When the options have no \<^verbatim>\<open>database\<close> property the target name
  is \<open>deepstream\<close>. When the property is a non-empty string, the target name is that
  string. When it is the empty string, the target name is \<open>deepstream\<close> as well.
\<close>

theorem effective_database_name:
  "(map_of opts ''database'' = None \<longrightarrow> database (constructor opts) = JStr ''deepstream'') \<and>
   (map_of opts ''database'' = Some (JStr s) \<longrightarrow>
      database (constructor opts) = (if s = [] then JStr ''deepstream'' else JStr s))"
  by (simp add: constructor_fields js_or_def get_prop_def)

theorem effective_database_name_witness:
  "database (constructor [(''host'', JStr ''x'')]) = JStr ''deepstream'' \<and>
   database (constructor [(''database'', JStr ''testdb'')]) = JStr ''testdb''"
  using effective_database_name [of "[(''host'', JStr ''x'')]"]
    effective_database_name [of "[(''database'', JStr ''testdb'')]" "''testdb''"]
  by simp

text \<open>
  The claim as stated fails: the empty string is falsy, so \<^verbatim>\<open>||\<close> replaces it by the
  default.
\<close>

theorem effective_database_name_counterexample:
  "database (constructor [(''database'', JStr [])]) = JStr ''deepstream'' \<and>
   database (constructor [(''database'', JStr [])]) \<noteq> JStr []"
  by (simp add: constructor_fields js_or_def get_prop_def)

text \<open>
  Claim C10. The constructor writes the target name into the \<^verbatim>\<open>db\<close> property of the
  caller's options object: afterwards \<^verbatim>\<open>options.db\<close> is \<^verbatim>\<open>options.database\<close> when
  that is truthy and \<open>deepstream\<close> otherwise, \<^verbatim>\<open>options.database\<close> and every other
  property but \<^verbatim>\<open>db\<close> are as before, and the connect request, the only thing issued so
  far, carries the object as already written.
\<close>

theorem constructor_writes_db:
  "get_prop (options (constructor opts)) ''db'' =
     (if truthy (get_prop opts ''database'') then get_prop opts ''database''
      else JStr ''deepstream'') \<and>
   get_prop (options (constructor opts)) ''database'' = get_prop opts ''database'' \<and>
   (\<forall>k. k \<noteq> ''db'' \<longrightarrow> map_of (options (constructor opts)) k = map_of opts k) \<and>
   trace (constructor opts) = [Connect (options (constructor opts))]"
  by (simp add: constructor_fields world_constructor js_or_def get_prop_set_prop
      map_of_set_prop)

theorem constructor_writes_db_witness:
  "get_prop (options (constructor [(''database'', JStr ''testdb''), (''db'', JStr ''old''),
       (''port'', JNum 1)])) ''db'' = JStr ''testdb'' \<and>
   map_of (options (constructor [(''database'', JStr ''testdb''), (''db'', JStr ''old''),
       (''port'', JNum 1)])) ''port'' = Some (JNum 1)"
  using constructor_writes_db
    [of "[(''database'', JStr ''testdb''), (''db'', JStr ''old''), (''port'', JNum 1)]"]
  by (simp add: get_prop_def)

section \<open>Order of the steps\<close>

text \<open>
  Claim C9. In the trace of every bootstrap, at every point: the listing request does not
  occur before the connect callback has been invoked; the creation request does not occur
  before the listing callback has been invoked; and for every step whose request has been
  issued, neither the selection nor the completion callback occurs before that step's
  callback has been invoked. No step's callback is invoked before its request.
\<close>

theorem steps_totally_ordered:
  assumes "run opts rs = Some w"
  shows "never_before ((=) (Invoked ConnectStep)) (is_call ListStep) (trace w) \<and>
         never_before ((=) (Invoked ListStep)) (is_call CreateStep) (trace w) \<and>
         (\<forall>s. (\<exists>ev\<in>set (trace w). is_call s ev) \<longrightarrow>
              never_before ((=) (Invoked s)) is_finish (trace w)) \<and>
         (\<forall>s. never_before (is_call s) ((=) (Invoked s)) (trace w))"
  using assms
proof (cases rule: run_cases)
  case start
  with assms show ?thesis by (auto simp: run_Nil world_constructor)
next
  case (connect e c)
  with assms show ?thesis
    by (auto simp: run_connect world_constructor split: if_splits option.splits elim: is_call.elims)
next
  case (list c e' l)
  with assms show ?thesis
    by (auto simp: run_list world_constructor split: if_splits option.splits elim: is_call.elims)
next
  case (create c l e'' x)
  with assms show ?thesis
    by (auto simp: run_create world_constructor
        split: if_splits option.splits elim: is_call.elims)
qed

theorem steps_totally_ordered_witness:
  "map_option (never_before ((=) (Invoked CreateStep)) is_finish \<circ> trace)
     (run [] [Connected None 7, Listed None [JStr ''other''], Created None JUndefined])
     = Some True \<and>
   map_option (list_ex (is_call CreateStep) \<circ> trace)
     (run [] [Connected None 7, Listed None [JStr ''other''], Created None JUndefined])
     = Some True"
proof -
  let ?rs = "[Connected None 7, Listed None [JStr ''other''], Created None JUndefined]"
  have d: "database (constructor []) = JStr ''deepstream''"
    by (simp add: constructor_fields js_or_def get_prop_def)
  obtain w where r: "run [] ?rs = Some w"
    and t: "tl (trace w) = [Invoked ConnectStep, DbListRun 7, Invoked ListStep,
        DbCreateRun (JStr ''deepstream'') (Some 7), Invoked CreateStep,
        Use 7 (JStr ''deepstream''), Callback [JNull]]"
    and n: "trace w \<noteq> []"
    by (simp add: run_create world_constructor d)
  from t n have c: "\<exists>ev\<in>set (trace w). is_call CreateStep ev"
    by (cases "trace w") auto
  with steps_totally_ordered [OF r]
  have "never_before ((=) (Invoked CreateStep)) is_finish (trace w)"
    by blast
  with r c show ?thesis
    by (simp add: list_ex_iff)
qed

end
